theory Spec2Isabelle
  imports Main
begin

section \<open>TaskFlow: the Pomodoro timer and the task board controller\<close>

text \<open>
  A shallow embedding of the two stateful components of TaskFlow: \<^verbatim>\<open>PomodoroTimer\<close>
  (a countdown with the session status idle, running or break) and \<^verbatim>\<open>App\<close> (the task
  list, the focused task and the handlers that talk to the task store).

  React state becomes a record. An event handler is a function from the state of the
  last render to the next state; the state setters of one handler are batched, so a
  handler reads the values of the render it was created in and the model writes the
  new values in one record update. After every event the component renders again and
  runs the effects whose dependencies changed (\<open>settle\<close> below). An updater function
  and an effect run once for each state change, as they do in a production build.
\<close>

subsection \<open>Data\<close>

text \<open>A JavaScript string is a sequence of UTF-16 code units.\<close>

type_synonym js_string = "nat list"

datatype kanban_status = Todo | InProgress | Complete

datatype energy = High | Medium | Low

datatype task_kind = Project | Daily

text \<open>
  A task as the snapshot listener builds it. The document id is opaque; the fields
  \<^verbatim>\<open>createdAt\<close> and \<^verbatim>\<open>userId\<close> are read by no handler modelled here and are left out.
\<close>

record task =
  task_id :: nat
  title :: js_string
  focusTime :: int
  energyLevel :: energy
  task_type :: task_kind
  task_status :: kanban_status

datatype session_status = Idle | Running | Break

text \<open>
  A live browser interval: the handle \<^verbatim>\<open>setInterval\<close> returned, and the two variables
  its callback closes over, \<^verbatim>\<open>newStatus\<close> and the \<^verbatim>\<open>currentTask\<close> of the render in which
  \<^verbatim>\<open>startTimer\<close> was created.
\<close>

record interval =
  handle :: nat
  newStatus :: session_status
  capturedTask :: "task option"

text \<open>
  The timer component: its prop \<open>currentTask\<close>, its three state variables, the
  browser's table of live intervals with the last handle it gave out, and the
  arguments of the calls of \<^verbatim>\<open>onTimerComplete\<close> made so far, oldest first.
  Handles are positive integers, so a handle is truthy and \<^verbatim>\<open>if (intervalId)\<close> tests
  \<open>intervalId \<noteq> None\<close>.
\<close>

record timer =
  currentTask :: "task option"
  remaining :: int
  status :: session_status
  intervalId :: "nat option"
  live :: "interval list"
  lastHandle :: nat
  completed :: "task option list"

subsection \<open>The timer's handlers\<close>

definition POMODORO_TIME :: int where
  "POMODORO_TIME = 25 * 60"

definition BREAK_TIME :: int where
  "BREAK_TIME = 5 * 60"

definition clearInterval :: "nat \<Rightarrow> timer \<Rightarrow> timer" where
  "clearInterval h s = s\<lparr>live := filter (\<lambda>iv. handle iv \<noteq> h) (live s)\<rparr>"

definition startTimer :: "session_status \<Rightarrow> int \<Rightarrow> timer \<Rightarrow> timer" where
  "startTimer newSt taskFocusTime s =
     (if intervalId s \<noteq> None then s
      else
        let startTime = (if newSt = Running then taskFocusTime * 60 else BREAK_TIME);
            h = Suc (lastHandle s)
        in s\<lparr>remaining := startTime,
             status := newSt,
             live := live s @ [\<lparr>handle = h, newStatus = newSt, capturedTask = currentTask s\<rparr>],
             lastHandle := h,
             intervalId := Some h\<rparr>)"

text \<open>
  One firing of the interval \<open>iv\<close>: the updater passed to \<^verbatim>\<open>setRemaining\<close>, applied
  once to the current value of \<open>remaining\<close>, with the calls it makes on the way.
\<close>

definition tick :: "interval \<Rightarrow> timer \<Rightarrow> timer" where
  "tick iv s =
     (if remaining s \<le> 1 then
        let s1 = (clearInterval (handle iv) s)\<lparr>intervalId := None\<rparr>
        in if newStatus iv = Running
           then s1\<lparr>completed := completed s1 @ [capturedTask iv],
                   status := Break,
                   remaining := BREAK_TIME\<rparr>
           else s1\<lparr>status := Idle, remaining := POMODORO_TIME\<rparr>
      else s\<lparr>remaining := remaining s - 1\<rparr>)"

definition stopTimer :: "timer \<Rightarrow> timer" where
  "stopTimer s =
     (let s1 = (case intervalId s of
                  Some h \<Rightarrow> (clearInterval h s)\<lparr>intervalId := None\<rparr>
                | None \<Rightarrow> s)
      in s1\<lparr>remaining := POMODORO_TIME, status := Idle\<rparr>)"

text \<open>
  The effect that follows the selected task (dependencies: task, status,
  \<^verbatim>\<open>stopTimer\<close>). Its three branches: a task and idle; no task and not idle; no task
  and idle. With a task and a status other than idle it does nothing.
\<close>

definition taskEffect :: "timer \<Rightarrow> timer" where
  "taskEffect s =
     (case currentTask s of
        Some t \<Rightarrow> if status s = Idle then s\<lparr>remaining := focusTime t * 60\<rparr> else s
      | None \<Rightarrow> if status s \<noteq> Idle then stopTimer s else s\<lparr>remaining := POMODORO_TIME\<rparr>)"

text \<open>
  The cleanup of the effect that depends on \<^verbatim>\<open>intervalId\<close>: when the handle changes, the
  cleanup of the previous render clears the handle that render saw.
\<close>

definition intervalCleanup :: "nat option \<Rightarrow> timer \<Rightarrow> timer" where
  "intervalCleanup old s =
     (if intervalId s = old then s
      else case old of Some h \<Rightarrow> clearInterval h s | None \<Rightarrow> s)"

definition timeToDisplay :: "timer \<Rightarrow> int" where
  "timeToDisplay s =
     (case currentTask s of
        Some t \<Rightarrow> if status s = Idle then focusTime t * 60 else remaining s
      | None \<Rightarrow> remaining s)"

subsection \<open>Rendering: effects run until the dependencies are stable\<close>

type_synonym deps = "task option \<times> session_status \<times> nat option"

definition deps :: "timer \<Rightarrow> deps" where
  "deps s = (currentTask s, status s, intervalId s)"

text \<open>
  \<^verbatim>\<open>stopTimer\<close> is rebuilt exactly when \<^verbatim>\<open>intervalId\<close> changes, so the dependencies of the
  task effect are the triple \<open>deps\<close>. \<open>settle d s\<close> commits the state \<open>s\<close> after a render
  whose predecessor had the dependencies \<open>d\<close>: cleanups first, then the effect, and
  again while an effect changed a dependency.
\<close>

function settle :: "deps \<Rightarrow> timer \<Rightarrow> timer" where
  "settle d s =
     (if deps s = d then s
      else settle (deps s) (taskEffect (intervalCleanup (snd (snd d)) s)))"
  by pat_completeness auto
termination
proof (relation "measure (\<lambda>(d, s). if deps s = d then 0
                                  else if currentTask s = None \<and> status s \<noteq> Idle then 2 else 1)")
  show "wf (measure (\<lambda>(d, s). if deps s = d then 0
              else if currentTask s = None \<and> status s \<noteq> Idle then 2 else (1::nat)))"
    by simp
next
  fix d :: deps and s :: timer
  assume ne: "deps s \<noteq> d"
  let ?c = "intervalCleanup (snd (snd d)) s"
  let ?s' = "taskEffect ?c"
  have c: "currentTask ?c = currentTask s" "status ?c = status s" "intervalId ?c = intervalId s"
    by (simp_all add: intervalCleanup_def clearInterval_def split: option.split)
  show "((deps s, ?s'), (d, s)) \<in> measure (\<lambda>(d, s). if deps s = d then 0
              else if currentTask s = None \<and> status s \<noteq> Idle then 2 else 1)"
  proof (cases "currentTask s = None \<and> status s \<noteq> Idle")
    case True
    then have "currentTask ?s' = None" "status ?s' = Idle"
      using c by (simp_all add: taskEffect_def stopTimer_def clearInterval_def split: option.split)
    with True ne show ?thesis by simp
  next
    case False
    then have "deps ?s' = deps s"
      using c by (auto simp: deps_def taskEffect_def split: option.split)
    with False ne show ?thesis by simp
  qed
qed

declare settle.simps [simp del]

subsection \<open>Events of the timer\<close>

text \<open>
  What can happen to the mounted timer: a click on one of its three buttons, one
  second of time, or a render of the parent with a new \<open>currentTask\<close>. A button that
  the current render does not show, or shows disabled, cannot be clicked: the event
  leaves the state as it is. ``Start Focus'' is shown while the status is neither
  running nor break and is disabled without a task; ``Stop'' is shown while it is
  running or break; ``Take a Break'' is shown while it is running. In one second
  every live interval fires once.
\<close>

datatype timer_event =
    ClickStartFocus
  | ClickStop
  | ClickTakeBreak
  | Second
  | Props "task option"

fun handler :: "timer_event \<Rightarrow> timer \<Rightarrow> timer" where
  "handler ClickStartFocus s =
     (if status s \<noteq> Running \<and> status s \<noteq> Break
      then (case currentTask s of
              None \<Rightarrow> s
            | Some t \<Rightarrow> startTimer Running (focusTime t) s)
      else s)"
| "handler ClickStop s =
     (if status s = Running \<or> status s = Break then stopTimer s else s)"
| "handler ClickTakeBreak s =
     (if status s = Running then startTimer Break (BREAK_TIME div 60) s else s)"
| "handler Second s = fold tick (live s) s"
| "handler (Props p) s = s\<lparr>currentTask := p\<rparr>"

definition dispatch :: "timer_event \<Rightarrow> timer \<Rightarrow> timer" where
  "dispatch e s = settle (deps s) (handler e s)"

definition timer_init :: timer where
  "timer_init =
     \<lparr>currentTask = None, remaining = POMODORO_TIME, status = Idle, intervalId = None,
      live = [], lastHandle = 0, completed = []\<rparr>"

definition run :: "timer_event list \<Rightarrow> timer \<Rightarrow> timer" where
  "run es s = fold dispatch es s"

primrec elapse :: "nat \<Rightarrow> timer \<Rightarrow> timer" where
  "elapse 0 s = s"
| "elapse (Suc n) s = elapse n (dispatch Second s)"

subsection \<open>The shape of a committed timer state\<close>

text \<open>
  What every state between two events looks like (proved below for all event
  sequences): an interval is live only while the status is running, and then it is the
  one whose handle the state holds; a countdown or a break always has a focused task.
  The live interval captured a task, so \<^verbatim>\<open>onTimerComplete\<close> is never called with
  \<^verbatim>\<open>null\<close>, on which \<^verbatim>\<open>handlePomodoroComplete\<close> would raise.
\<close>

definition timer_ok :: "timer \<Rightarrow> bool" where
  "timer_ok s \<longleftrightarrow>
     (status s \<noteq> Running \<longrightarrow> intervalId s = None \<and> live s = []) \<and>
     (status s \<noteq> Idle \<longrightarrow> currentTask s \<noteq> None) \<and>
     (status s = Running \<longrightarrow>
        (\<exists>h c. intervalId s = Some h \<and>
               live s = [\<lparr>handle = h, newStatus = Running, capturedTask = Some c\<rparr>]))"

text \<open>
  The data model gives every task a positive number of focus minutes; an event is
  valid when the task it hands to the timer has one. \<open>timer_pos\<close> is what then holds
  of every state.
\<close>

fun valid_event :: "timer_event \<Rightarrow> bool" where
  "valid_event (Props (Some t)) = (0 < focusTime t)"
| "valid_event e = True"

definition timer_pos :: "timer \<Rightarrow> bool" where
  "timer_pos s \<longleftrightarrow> 1 \<le> remaining s \<and> (\<forall>t. currentTask s = Some t \<longrightarrow> 0 < focusTime t)"

subsection \<open>The task store and the task form\<close>

text \<open>
  The task store is external and asynchronous. A handler sends its request and
  returns; the rest of the handler, the code after its \<^verbatim>\<open>await\<close>, runs in a later event,
  when the store resolves or rejects the request. Any other event may fall in
  between. \<open>pending\<close> holds the requests not yet answered, each with what the rest of
  its handler reads: the task id, the new status, and the \<^verbatim>\<open>currentFocusTask\<close> of the
  render that created the handler. \<open>storeCalls\<close> lists the requests sent, oldest first,
  and \<open>storeReady\<close> says whether \<^verbatim>\<open>getTasksCollectionRef()\<close> returns a collection.

  The task list changes only when the snapshot listener is called. What the store
  puts into a snapshot, and when, is the store's business: the list the listener
  builds from it (ids and the default type filled in, oldest first) is an input of
  the model.
\<close>

datatype store_outcome = Resolves | Rejects

record new_task =
  new_title :: js_string
  new_focusTime :: int
  new_energyLevel :: energy
  new_type :: task_kind

datatype store_call =
    AddDoc new_task
  | UpdateDoc nat kanban_status
  | DeleteDoc nat

datatype request =
    AwaitAdd
  | AwaitUpdate "task option" nat kanban_status
  | AwaitDelete "task option" nat

record app =
  tasks :: "task list"
  currentFocusTask :: "task option"
  isSubmitting :: bool
  storeReady :: bool
  storeCalls :: "store_call list"
  pending :: "request list"

text \<open>
  \<^verbatim>\<open>String.prototype.trim\<close> removes white space and line terminators from both ends.
\<close>

definition isWhiteSpace :: "nat \<Rightarrow> bool" where
  "isWhiteSpace c \<longleftrightarrow>
     c \<in> set [9, 10, 11, 12, 13, 32, 160, 5760, 8232, 8233, 8239, 8287, 12288, 65279] \<or>
     (8192 \<le> c \<and> c \<le> 8202)"

definition trim :: "js_string \<Rightarrow> js_string" where
  "trim s = rev (dropWhile isWhiteSpace (rev (dropWhile isWhiteSpace s)))"

text \<open>
  The state of \<^verbatim>\<open>TaskForm\<close>. The select offers the minutes 15, 30, 45, 60, 90 and 120,
  so \<^verbatim>\<open>parseInt(focusTime)\<close> is the number chosen and the field holds it as a number.
\<close>

record task_form =
  form_title :: js_string
  form_focusTime :: int
  form_energyLevel :: energy
  form_taskType :: task_kind

subsection \<open>The handlers of the board\<close>

text \<open>Each handler up to its \<^verbatim>\<open>await\<close>.\<close>

definition handleAddTask :: "new_task \<Rightarrow> app \<Rightarrow> app" where
  "handleAddTask newTask a =
     (if \<not> storeReady a then a\<lparr>isSubmitting := False\<rparr>
      else a\<lparr>isSubmitting := True,
             storeCalls := storeCalls a @ [AddDoc newTask],
             pending := pending a @ [AwaitAdd]\<rparr>)"

definition handleSubmit :: "task_form \<Rightarrow> app \<Rightarrow> task_form \<times> app" where
  "handleSubmit f a =
     (if trim (form_title f) = [] then (f, a)
      else
        (f\<lparr>form_title := [], form_focusTime := 30, form_energyLevel := Medium\<rparr>,
         handleAddTask
           \<lparr>new_title = trim (form_title f), new_focusTime = form_focusTime f,
            new_energyLevel = form_energyLevel f, new_type = form_taskType f\<rparr> a))"

text \<open>
  \<^verbatim>\<open>handleUpdateTaskStatus\<close> and \<^verbatim>\<open>handleDeleteTask\<close> compare the id with the
  \<^verbatim>\<open>currentFocusTask\<close> of the render that created them; that value is the first
  argument here, and it goes into the pending request.
\<close>

definition handleUpdateTaskStatus :: "task option \<Rightarrow> nat \<Rightarrow> kanban_status \<Rightarrow> app \<Rightarrow> app" where
  "handleUpdateTaskStatus focus taskId newSt a =
     (if \<not> storeReady a then a
      else a\<lparr>storeCalls := storeCalls a @ [UpdateDoc taskId newSt],
             pending := pending a @ [AwaitUpdate focus taskId newSt]\<rparr>)"

definition handleDeleteTask :: "task option \<Rightarrow> nat \<Rightarrow> app \<Rightarrow> app" where
  "handleDeleteTask focus taskId a =
     (if \<not> storeReady a then a
      else a\<lparr>storeCalls := storeCalls a @ [DeleteDoc taskId],
             pending := pending a @ [AwaitDelete focus taskId]\<rparr>)"

definition handleStartFocus :: "task \<Rightarrow> app \<Rightarrow> app" where
  "handleStartFocus t a =
     (let a1 = a\<lparr>currentFocusTask := Some t\<rparr>
      in if task_status t = Todo
         then handleUpdateTaskStatus (currentFocusTask a) (task_id t) InProgress a1
         else a1)"

text \<open>
  The rest of a handler, run when the store answers its request. A rejection is
  logged and nothing else; the \<^verbatim>\<open>finally\<close> of \<^verbatim>\<open>handleAddTask\<close> runs either way.
\<close>

fun resume :: "store_outcome \<Rightarrow> request \<Rightarrow> app \<Rightarrow> app" where
  "resume out AwaitAdd a = a\<lparr>isSubmitting := False\<rparr>"
| "resume Resolves (AwaitUpdate focus taskId newSt) a =
     (if newSt = Complete \<and> map_option task_id focus = Some taskId
      then a\<lparr>currentFocusTask := None\<rparr>
      else a)"
| "resume Rejects (AwaitUpdate focus taskId newSt) a = a"
| "resume Resolves (AwaitDelete focus taskId) a =
     (if map_option task_id focus = Some taskId
      then a\<lparr>currentFocusTask := None\<rparr>
      else a)"
| "resume Rejects (AwaitDelete focus taskId) a = a"

fun nextStatus :: "kanban_status \<Rightarrow> kanban_status" where
  "nextStatus Todo = InProgress"
| "nextStatus InProgress = Complete"
| "nextStatus Complete = Todo"

definition isFocusing :: "app \<Rightarrow> task \<Rightarrow> bool" where
  "isFocusing a t \<longleftrightarrow> map_option task_id (currentFocusTask a) = Some (task_id t)"

definition filteredTasks :: "app \<Rightarrow> task_kind \<Rightarrow> kanban_status \<Rightarrow> task list" where
  "filteredTasks a taskTypeFilter st =
     filter (\<lambda>t. task_status t = st \<and> task_type t = taskTypeFilter) (tasks a)"

subsection \<open>Events of the board\<close>

text \<open>
  A click on a button of the card of the task with a given id; a submission of the
  form with given contents; the store's answer to the pending request at a given
  position; a call of the snapshot listener with a given list. The card shows the
  task as \<open>tasks\<close> holds it and hands that task to its handlers. It has the Focus
  button only while the task's status is not complete. The form cannot be submitted
  while a submission is under way, and the listener exists only when the store is
  ready.
\<close>

datatype app_event =
    ClickFocus nat
  | ClickNext nat
  | ClickDelete nat
  | SubmitForm task_form
  | Settles nat store_outcome
  | Snapshot "task list"

definition taskCard :: "app \<Rightarrow> nat \<Rightarrow> task option" where
  "taskCard a i = find (\<lambda>t. task_id t = i) (tasks a)"

fun app_dispatch :: "app_event \<Rightarrow> app \<Rightarrow> app" where
  "app_dispatch (ClickFocus i) a =
     (case taskCard a i of
        None \<Rightarrow> a
      | Some t \<Rightarrow> if task_status t \<noteq> Complete then handleStartFocus t a else a)"
| "app_dispatch (ClickNext i) a =
     (case taskCard a i of
        None \<Rightarrow> a
      | Some t \<Rightarrow>
          handleUpdateTaskStatus (currentFocusTask a) i (nextStatus (task_status t)) a)"
| "app_dispatch (ClickDelete i) a =
     (case taskCard a i of
        None \<Rightarrow> a
      | Some t \<Rightarrow> handleDeleteTask (currentFocusTask a) i a)"
| "app_dispatch (SubmitForm f) a =
     (if isSubmitting a then a else snd (handleSubmit f a))"
| "app_dispatch (Settles k out) a =
     (if k < length (pending a)
      then resume out (pending a ! k)
             (a\<lparr>pending := take k (pending a) @ drop (Suc k) (pending a)\<rparr>)
      else a)"
| "app_dispatch (Snapshot ts) a =
     (if storeReady a then a\<lparr>tasks := ts\<rparr> else a)"

text \<open>The board as it is mounted, once the first snapshot \<open>ts\<close> has arrived.\<close>

definition app_init :: "bool \<Rightarrow> task list \<Rightarrow> app" where
  "app_init ready ts =
     \<lparr>tasks = ts, currentFocusTask = None, isSubmitting = False, storeReady = ready,
      storeCalls = [], pending = []\<rparr>"

definition app_run :: "app_event list \<Rightarrow> app \<Rightarrow> app" where
  "app_run es a = fold app_dispatch es a"

text \<open>
  \<^verbatim>\<open>App\<close> renders the timer with \<^verbatim>\<open>currentTask={currentFocusTask}\<close>: after an event of the
  board the timer receives the focused task as its prop.
\<close>

definition board_then_timer :: "app_event \<Rightarrow> app \<times> timer \<Rightarrow> app \<times> timer" where
  "board_then_timer e p =
     (let a' = app_dispatch e (fst p)
      in (a', dispatch (Props (currentFocusTask a')) (snd p)))"

subsection \<open>A concrete session\<close>

text \<open>
  The task of the end-to-end scenario (``Write report'', 45 minutes, medium energy, a
  project task), after its card's Focus button moved it to in-progress; the timer with
  that task selected; and the timer one click on ``Start Focus'' later.
\<close>

definition js :: "string \<Rightarrow> js_string" where
  "js cs = map of_char cs"

definition report_task :: task where
  "report_task =
     \<lparr>task_id = 3, title = js ''Write report'', focusTime = 45, energyLevel = Medium,
      task_type = Project, task_status = InProgress\<rparr>"

definition report_selected :: timer where
  "report_selected = run [Props (Some report_task)] timer_init"

definition report_running :: timer where
  "report_running = run [Props (Some report_task), ClickStartFocus] timer_init"

text \<open>The same timer 2700 seconds later, when the focus countdown has run out.\<close>

definition report_break :: timer where
  "report_break =
     run ([Props (Some report_task), ClickStartFocus] @ replicate 2700 Second) timer_init"

text \<open>
  The report once it is completed. A board whose only task is the completed report;
  a board whose only task is the report in progress; a board with the report in
  progress and a second task still to do; and a form whose title is two spaces and a
  tab.
\<close>

definition done_task :: task where
  "done_task = report_task\<lparr>task_status := Complete\<rparr>"

definition email_task :: task where
  "email_task =
     \<lparr>task_id = 4, title = js ''Answer email'', focusTime = 15, energyLevel = Low,
      task_type = Daily, task_status = Todo\<rparr>"

definition done_board :: app where
  "done_board = app_init True [done_task]"

definition report_board :: app where
  "report_board = app_init True [report_task]"

definition two_task_board :: app where
  "two_task_board = app_init True [report_task, email_task]"

definition blank_form :: task_form where
  "blank_form =
     \<lparr>form_title = [32, 32, 9], form_focusTime = 30, form_energyLevel = Medium,
      form_taskType = Project\<rparr>"

text \<open>The two-task board after a click on the Focus button of the report's card.\<close>

definition report_focused_board :: app where
  "report_focused_board = app_run [ClickFocus 3] two_task_board"

text \<open>
  Two afternoons on the one-task board. In the first the report is focused, then
  marked complete; the store resolves the update and sends the snapshot with the
  completed report. In the second ``Mark Complete'' is clicked first and ``Focus''
  while the update is still pending; then the store resolves the update and sends
  the same snapshot. In a third the report is focused, then deleted; the store
  resolves the deletion and sends the empty snapshot.
\<close>

definition focus_then_complete :: "app_event list" where
  "focus_then_complete = [ClickFocus 3, ClickNext 3, Settles 0 Resolves, Snapshot [done_task]]"

definition complete_then_focus :: "app_event list" where
  "complete_then_focus = [ClickNext 3, ClickFocus 3, Settles 0 Resolves, Snapshot [done_task]]"

definition focus_then_delete :: "app_event list" where
  "focus_then_delete = [ClickFocus 3, ClickDelete 3, Settles 0 Resolves, Snapshot []]"

section \<open>Properties of the timer\<close>

subsection \<open>Committing a render\<close>

lemma intervalCleanup_fields [simp]:
  "currentTask (intervalCleanup old s) = currentTask s"
  "status (intervalCleanup old s) = status s"
  "intervalId (intervalCleanup old s) = intervalId s"
  "remaining (intervalCleanup old s) = remaining s"
  "completed (intervalCleanup old s) = completed s"
  "lastHandle (intervalCleanup old s) = lastHandle s"
  by (simp_all add: intervalCleanup_def clearInterval_def split: option.split)

lemma stopTimer_fields [simp]:
  "currentTask (stopTimer s) = currentTask s"
  "status (stopTimer s) = Idle"
  "intervalId (stopTimer s) = None"
  "remaining (stopTimer s) = POMODORO_TIME"
  "completed (stopTimer s) = completed s"
  "lastHandle (stopTimer s) = lastHandle s"
  by (simp_all add: stopTimer_def clearInterval_def split: option.split)

lemma taskEffect_idle_none:
  "currentTask s = None \<Longrightarrow> status s = Idle \<Longrightarrow> taskEffect s = s\<lparr>remaining := POMODORO_TIME\<rparr>"
  by (simp add: taskEffect_def)

lemma taskEffect_idle_task:
  "currentTask s = Some t \<Longrightarrow> status s = Idle \<Longrightarrow> taskEffect s = s\<lparr>remaining := focusTime t * 60\<rparr>"
  by (simp add: taskEffect_def)

lemma taskEffect_busy_task:
  "currentTask s = Some t \<Longrightarrow> status s \<noteq> Idle \<Longrightarrow> taskEffect s = s"
  by (simp add: taskEffect_def)

lemma taskEffect_busy_none:
  "currentTask s = None \<Longrightarrow> status s \<noteq> Idle \<Longrightarrow> taskEffect s = stopTimer s"
  by (simp add: taskEffect_def)

lemma settle_same: "settle (deps s) s = s"
  by (simp add: settle.simps)

lemma settle_unchanged: "deps s = d \<Longrightarrow> settle d s = s"
  by (simp add: settle.simps)

lemma settle_once:
  assumes "deps s \<noteq> d" and "currentTask s \<noteq> None \<or> status s = Idle"
  shows "settle d s = taskEffect (intervalCleanup (snd (snd d)) s)"
proof -
  let ?c = "intervalCleanup (snd (snd d)) s"
  have c: "currentTask ?c = currentTask s" "status ?c = status s" "intervalId ?c = intervalId s"
    by (simp_all add: intervalCleanup_def clearInterval_def split: option.split)
  have "deps (taskEffect ?c) = deps s"
    using assms(2) c by (auto simp: deps_def taskEffect_def split: option.split)
  then have "settle (deps s) (taskEffect ?c) = taskEffect ?c"
    by (rule settle_unchanged)
  with assms(1) show ?thesis
    by (subst settle.simps) simp
qed

lemma settle_stop:
  assumes "currentTask s = None" and "status s \<noteq> Idle"
  shows "settle d s =
    (if deps s = d then s else
     (let s1 = stopTimer (intervalCleanup (snd (snd d)) s)
      in (intervalCleanup (intervalId s) s1)\<lparr>remaining := POMODORO_TIME\<rparr>))"
proof (cases "deps s = d")
  case True
  then show ?thesis by (simp add: settle_unchanged)
next
  case False
  let ?c = "intervalCleanup (snd (snd d)) s"
  have te: "taskEffect ?c = stopTimer ?c"
    using assms by (simp add: taskEffect_busy_none)
  have st: "currentTask (stopTimer ?c) = None"
    using assms by simp
  have ne: "deps (stopTimer ?c) \<noteq> deps s"
    using assms by (simp add: deps_def)
  have "settle (deps s) (stopTimer ?c) = taskEffect (intervalCleanup (snd (snd (deps s))) (stopTimer ?c))"
    using ne by (intro settle_once) simp_all
  also have "\<dots> = (intervalCleanup (intervalId s) (stopTimer ?c))\<lparr>remaining := POMODORO_TIME\<rparr>"
    using st by (simp add: taskEffect_idle_none deps_def)
  finally have "settle (deps s) (taskEffect ?c) =
      (intervalCleanup (intervalId s) (stopTimer ?c))\<lparr>remaining := POMODORO_TIME\<rparr>"
    by (simp add: te)
  moreover have "settle d s = settle (deps s) (taskEffect ?c)"
    using False by (subst settle.simps) simp
  ultimately show ?thesis
    using False by (simp add: Let_def)
qed

lemma dispatch_Second_nolive: "live s = [] \<Longrightarrow> dispatch Second s = s"
  by (simp add: dispatch_def settle_same)

lemma dispatch_Second_count:
  "live s = [iv] \<Longrightarrow> 1 < remaining s \<Longrightarrow> dispatch Second s = s\<lparr>remaining := remaining s - 1\<rparr>"
  by (simp add: dispatch_def tick_def settle_unchanged deps_def)

lemma dispatch_Second_done:
  assumes "live s = [iv]" "handle iv = h" "newStatus iv = Running" "intervalId s = Some h"
    "status s = Running" "currentTask s \<noteq> None" "remaining s \<le> 1"
  shows "dispatch Second s =
     s\<lparr>remaining := BREAK_TIME, status := Break, intervalId := None, live := [],
       completed := completed s @ [capturedTask iv]\<rparr>"
proof -
  let ?s1 = "s\<lparr>remaining := BREAK_TIME, status := Break, intervalId := None, live := [],
       completed := completed s @ [capturedTask iv]\<rparr>"
  have h: "handler Second s = ?s1"
    using assms by (simp add: tick_def clearInterval_def)
  have "settle (deps s) ?s1 = taskEffect (intervalCleanup (snd (snd (deps s))) ?s1)"
    using assms by (intro settle_once) (auto simp: deps_def)
  also have "\<dots> = ?s1"
    using assms by (auto simp: taskEffect_def intervalCleanup_def clearInterval_def deps_def)
  finally show ?thesis
    unfolding dispatch_def h .
qed

lemma dispatch_start:
  assumes "status s = Idle" "intervalId s = None" "currentTask s = Some t"
  shows "dispatch ClickStartFocus s =
     s\<lparr>remaining := focusTime t * 60, status := Running,
       live := live s @ [\<lparr>handle = Suc (lastHandle s), newStatus = Running, capturedTask = Some t\<rparr>],
       lastHandle := Suc (lastHandle s), intervalId := Some (Suc (lastHandle s))\<rparr>"
proof -
  let ?s1 = "s\<lparr>remaining := focusTime t * 60, status := Running,
       live := live s @ [\<lparr>handle = Suc (lastHandle s), newStatus = Running, capturedTask = Some t\<rparr>],
       lastHandle := Suc (lastHandle s), intervalId := Some (Suc (lastHandle s))\<rparr>"
  have h: "handler ClickStartFocus s = ?s1"
    using assms by (simp add: startTimer_def Let_def)
  have "settle (deps s) ?s1 = taskEffect (intervalCleanup (snd (snd (deps s))) ?s1)"
    using assms by (intro settle_once) (auto simp: deps_def)
  also have "\<dots> = ?s1"
    using assms by (simp add: taskEffect_def intervalCleanup_def deps_def)
  finally show ?thesis
    unfolding dispatch_def h .
qed

lemma dispatch_start_noop:
  "status s \<noteq> Idle \<or> currentTask s = None \<Longrightarrow> dispatch ClickStartFocus s = s"
  by (cases "status s") (auto simp: dispatch_def settle_same)

lemma dispatch_break_noop:
  "status s \<noteq> Running \<or> intervalId s \<noteq> None \<Longrightarrow> dispatch ClickTakeBreak s = s"
  by (auto simp: dispatch_def settle_same startTimer_def)

lemma dispatch_stop_idle: "status s = Idle \<Longrightarrow> dispatch ClickStop s = s"
  by (simp add: dispatch_def settle_same)

lemma stopTimer_ok:
  "timer_ok s \<Longrightarrow> stopTimer s = s\<lparr>remaining := POMODORO_TIME, status := Idle, intervalId := None, live := []\<rparr>"
  by (cases "status s") (auto simp: timer_ok_def stopTimer_def clearInterval_def)

lemma dispatch_stop:
  assumes "timer_ok s" "status s \<noteq> Idle" "currentTask s = Some t"
  shows "dispatch ClickStop s =
     s\<lparr>remaining := focusTime t * 60, status := Idle, intervalId := None, live := []\<rparr>"
proof -
  let ?s1 = "s\<lparr>remaining := POMODORO_TIME, status := Idle, intervalId := None, live := []\<rparr>"
  have h: "handler ClickStop s = ?s1"
    using assms by (cases "status s") (simp_all add: stopTimer_ok)
  have "settle (deps s) ?s1 = taskEffect (intervalCleanup (snd (snd (deps s))) ?s1)"
    using assms by (intro settle_once) (auto simp: deps_def)
  also have "\<dots> = s\<lparr>remaining := focusTime t * 60, status := Idle, intervalId := None, live := []\<rparr>"
    using assms by (auto simp: taskEffect_def intervalCleanup_def clearInterval_def deps_def split: option.split)
  finally show ?thesis
    unfolding dispatch_def h .
qed

lemma dispatch_props_busy:
  assumes "status s \<noteq> Idle"
  shows "dispatch (Props (Some t)) s = s\<lparr>currentTask := Some t\<rparr>"
proof (cases "currentTask s = Some t")
  case True
  then have "s\<lparr>currentTask := Some t\<rparr> = s" by simp
  then show ?thesis by (simp add: dispatch_def settle_same)
next
  case False
  let ?s1 = "s\<lparr>currentTask := Some t\<rparr>"
  have "settle (deps s) ?s1 = taskEffect (intervalCleanup (snd (snd (deps s))) ?s1)"
    using False by (intro settle_once) (auto simp: deps_def)
  also have "\<dots> = ?s1"
    using assms by (simp add: taskEffect_def intervalCleanup_def deps_def)
  finally show ?thesis
    by (simp add: dispatch_def)
qed

lemma dispatch_props_idle:
  assumes "status s = Idle" "currentTask s \<noteq> p"
  shows "dispatch (Props p) s =
     s\<lparr>currentTask := p,
       remaining := (case p of Some t \<Rightarrow> focusTime t * 60 | None \<Rightarrow> POMODORO_TIME)\<rparr>"
proof -
  let ?s1 = "s\<lparr>currentTask := p\<rparr>"
  have "settle (deps s) ?s1 = taskEffect (intervalCleanup (snd (snd (deps s))) ?s1)"
    using assms by (intro settle_once) (auto simp: deps_def)
  also have "\<dots> = ?s1\<lparr>remaining := (case p of Some t \<Rightarrow> focusTime t * 60 | None \<Rightarrow> POMODORO_TIME)\<rparr>"
    using assms by (simp add: taskEffect_def intervalCleanup_def deps_def split: option.split)
  finally show ?thesis
    by (simp add: dispatch_def)
qed

lemma dispatch_props_same: "currentTask s = p \<Longrightarrow> dispatch (Props p) s = s"
  by (auto simp: dispatch_def settle_same)

lemma dispatch_props_none_busy:
  assumes "timer_ok s" "status s \<noteq> Idle"
  shows "dispatch (Props None) s =
     s\<lparr>currentTask := None, remaining := POMODORO_TIME, status := Idle, intervalId := None,
       live := []\<rparr>"
proof -
  let ?s1 = "s\<lparr>currentTask := None\<rparr>"
  have ne: "deps ?s1 \<noteq> deps s"
    using assms by (auto simp: deps_def timer_ok_def)
  have st: "stopTimer ?s1 = ?s1\<lparr>remaining := POMODORO_TIME, status := Idle, intervalId := None, live := []\<rparr>"
    using assms by (cases "status s") (auto simp: timer_ok_def stopTimer_def clearInterval_def)
  have "settle (deps s) ?s1 =
     (intervalCleanup (intervalId ?s1) (stopTimer (intervalCleanup (snd (snd (deps s))) ?s1)))\<lparr>remaining := POMODORO_TIME\<rparr>"
    using ne assms by (subst settle_stop) (simp_all add: Let_def)
  also have "intervalCleanup (snd (snd (deps s))) ?s1 = ?s1"
    by (simp add: deps_def intervalCleanup_def)
  also have "(intervalCleanup (intervalId ?s1) (stopTimer ?s1))\<lparr>remaining := POMODORO_TIME\<rparr> =
      s\<lparr>currentTask := None, remaining := POMODORO_TIME, status := Idle, intervalId := None, live := []\<rparr>"
    unfolding st by (simp add: intervalCleanup_def clearInterval_def split: option.split)
  finally show ?thesis
    by (simp add: dispatch_def)
qed


lemma timer_ok_init: "timer_ok timer_init"
  by (simp add: timer_ok_def timer_init_def)

lemma timer_ok_dispatch:
  assumes ok: "timer_ok s"
  shows "timer_ok (dispatch e s)"
proof (cases e)
  case ClickStartFocus
  show ?thesis
  proof (cases "status s \<noteq> Idle \<or> currentTask s = None")
    case True
    then show ?thesis using ok ClickStartFocus by (simp add: dispatch_start_noop)
  next
    case False
    then obtain t where t: "currentTask s = Some t" and i: "status s = Idle" by auto
    from ok i have "intervalId s = None" "live s = []" by (simp_all add: timer_ok_def)
    then show ?thesis
      using ClickStartFocus t i by (simp add: dispatch_start timer_ok_def)
  qed
next
  case ClickStop
  show ?thesis
  proof (cases "status s = Idle")
    case True
    then show ?thesis using ok ClickStop by (simp add: dispatch_stop_idle)
  next
    case False
    with ok obtain t where "currentTask s = Some t" by (auto simp: timer_ok_def)
    then show ?thesis
      using ok False ClickStop by (simp add: dispatch_stop timer_ok_def)
  qed
next
  case ClickTakeBreak
  have "status s \<noteq> Running \<or> intervalId s \<noteq> None"
    using ok by (auto simp: timer_ok_def)
  then show ?thesis using ok ClickTakeBreak by (simp add: dispatch_break_noop)
next
  case Second
  show ?thesis
  proof (cases "status s = Running")
    case False
    with ok have "live s = []" by (simp add: timer_ok_def)
    then show ?thesis using ok Second by (simp add: dispatch_Second_nolive)
  next
    case True
    with ok obtain h c where hc: "intervalId s = Some h"
        "live s = [\<lparr>handle = h, newStatus = Running, capturedTask = Some c\<rparr>]"
      and ct: "currentTask s \<noteq> None"
      by (auto simp: timer_ok_def)
    show ?thesis
    proof (cases "1 < remaining s")
      case True
      then show ?thesis
        using ok hc Second by (simp add: dispatch_Second_count [OF hc(2)] timer_ok_def)
    next
      case False
      then have "remaining s \<le> 1" by simp
      from dispatch_Second_done [OF hc(2) _ _ hc(1) True ct this]
      show ?thesis using ct Second by (simp add: timer_ok_def)
    qed
  qed
next
  case (Props p)
  show ?thesis
  proof (cases "currentTask s = p")
    case True
    then show ?thesis using ok Props by (simp add: dispatch_props_same)
  next
    case ne: False
    show ?thesis
    proof (cases "status s = Idle")
      case True
      then show ?thesis
        using ok ne Props by (simp add: dispatch_props_idle timer_ok_def)
    next
      case False
      then show ?thesis
        using ok Props
        by (cases p) (simp_all add: dispatch_props_busy dispatch_props_none_busy timer_ok_def)
    qed
  qed
qed

lemma timer_ok_run: "timer_ok s \<Longrightarrow> timer_ok (run es s)"
  by (induction es arbitrary: s) (simp_all add: run_def timer_ok_dispatch)

lemma timer_ok_reachable: "timer_ok (run es timer_init)"
  by (simp add: timer_ok_run timer_ok_init)

lemma elapse_Suc_right: "elapse (Suc n) s = dispatch Second (elapse n s)"
  by (induction n arbitrary: s) simp_all

lemma elapse_add: "elapse (m + n) s = elapse n (elapse m s)"
  by (induction m arbitrary: s) simp_all

lemma elapse_nolive: "live s = [] \<Longrightarrow> elapse n s = s"
  by (induction n) (simp_all add: dispatch_Second_nolive)

lemma elapse_count:
  "live s = [iv] \<Longrightarrow> int k < remaining s \<Longrightarrow> elapse k s = s\<lparr>remaining := remaining s - int k\<rparr>"
proof (induction k arbitrary: s)
  case 0
  then show ?case by simp
next
  case (Suc k)
  have one: "1 < remaining s" using Suc.prems by simp
  let ?s1 = "s\<lparr>remaining := remaining s - 1\<rparr>"
  have "elapse (Suc k) s = elapse k ?s1"
    by (simp add: dispatch_Second_count [OF Suc.prems(1) one])
  also have "\<dots> = ?s1\<lparr>remaining := remaining ?s1 - int k\<rparr>"
    using Suc.prems by (intro Suc.IH) simp_all
  also have "\<dots> = s\<lparr>remaining := remaining s - int (Suc k)\<rparr>"
    by simp
  finally show ?case .
qed

lemma elapse_complete:
  assumes "live s = [iv]" "handle iv = h" "newStatus iv = Running" "intervalId s = Some h"
    "status s = Running" "currentTask s \<noteq> None" "1 \<le> remaining s"
  shows "elapse (nat (remaining s)) s =
     s\<lparr>remaining := BREAK_TIME, status := Break, intervalId := None, live := [],
       completed := completed s @ [capturedTask iv]\<rparr>"
proof -
  let ?k = "nat (remaining s - 1)"
  let ?s1 = "s\<lparr>remaining := 1\<rparr>"
  have n: "nat (remaining s) = Suc ?k" using assms(7) by simp
  have "elapse ?k s = s\<lparr>remaining := remaining s - int ?k\<rparr>"
    using assms by (intro elapse_count) simp_all
  then have e: "elapse ?k s = ?s1" using assms(7) by simp
  have "dispatch Second ?s1 =
     ?s1\<lparr>remaining := BREAK_TIME, status := Break, intervalId := None, live := [],
       completed := completed ?s1 @ [capturedTask iv]\<rparr>"
    using assms by (intro dispatch_Second_done) simp_all
  then show ?thesis
    unfolding n elapse_Suc_right e by simp
qed

subsection \<open>Runs and elapsed seconds\<close>

lemma run_append: "run (es @ fs) s = run fs (run es s)"
  by (simp add: run_def)

lemma run_seconds: "run (replicate n Second) s = elapse n s"
  by (induction n arbitrary: s) (simp_all add: run_def)

lemma run_then_seconds: "run (es @ replicate n Second) s = elapse n (run es s)"
  by (simp add: run_append run_seconds)

subsection \<open>The remaining time stays positive\<close>

lemma timer_pos_init: "timer_pos timer_init"
  by (simp add: timer_pos_def timer_init_def POMODORO_TIME_def)

lemma timer_pos_dispatch:
  assumes ok: "timer_ok s" and pos: "timer_pos s" and v: "valid_event e"
  shows "timer_pos (dispatch e s)"
proof (cases e)
  case ClickStartFocus
  show ?thesis
  proof (cases "status s \<noteq> Idle \<or> currentTask s = None")
    case True
    then show ?thesis using pos ClickStartFocus by (simp add: dispatch_start_noop)
  next
    case False
    then obtain t where t: "currentTask s = Some t" and i: "status s = Idle" by auto
    from ok i have "intervalId s = None" by (simp add: timer_ok_def)
    then show ?thesis
      using ClickStartFocus t i pos by (simp add: dispatch_start timer_pos_def)
  qed
next
  case ClickStop
  show ?thesis
  proof (cases "status s = Idle")
    case True
    then show ?thesis using pos ClickStop by (simp add: dispatch_stop_idle)
  next
    case False
    with ok obtain t where "currentTask s = Some t" by (auto simp: timer_ok_def)
    then show ?thesis
      using ok pos False ClickStop by (simp add: dispatch_stop timer_pos_def)
  qed
next
  case ClickTakeBreak
  have "status s \<noteq> Running \<or> intervalId s \<noteq> None"
    using ok by (auto simp: timer_ok_def)
  then show ?thesis using pos ClickTakeBreak by (simp add: dispatch_break_noop)
next
  case Second
  show ?thesis
  proof (cases "status s = Running")
    case False
    with ok have "live s = []" by (simp add: timer_ok_def)
    then show ?thesis using pos Second by (simp add: dispatch_Second_nolive)
  next
    case True
    with ok obtain h c where hc: "intervalId s = Some h"
        "live s = [\<lparr>handle = h, newStatus = Running, capturedTask = Some c\<rparr>]"
      and ct: "currentTask s \<noteq> None"
      by (auto simp: timer_ok_def)
    show ?thesis
    proof (cases "1 < remaining s")
      case True
      then show ?thesis
        using pos Second by (simp add: dispatch_Second_count [OF hc(2)] timer_pos_def)
    next
      case False
      then have "remaining s \<le> 1" by simp
      from dispatch_Second_done [OF hc(2) _ _ hc(1) True ct this]
      show ?thesis using pos Second by (simp add: timer_pos_def BREAK_TIME_def)
    qed
  qed
next
  case (Props p)
  show ?thesis
  proof (cases "currentTask s = p")
    case True
    then show ?thesis using pos Props by (simp add: dispatch_props_same)
  next
    case ne: False
    show ?thesis
    proof (cases "status s = Idle")
      case True
      then show ?thesis
        using pos ne Props v
        by (cases p) (simp_all add: dispatch_props_idle timer_pos_def POMODORO_TIME_def)
    next
      case False
      then show ?thesis
        using ok pos Props v
        by (cases p)
           (simp_all add: dispatch_props_busy dispatch_props_none_busy timer_pos_def
              POMODORO_TIME_def)
    qed
  qed
qed

lemma timer_pos_run:
  "timer_ok s \<Longrightarrow> timer_pos s \<Longrightarrow> list_all valid_event es \<Longrightarrow> timer_pos (run es s)"
proof (induction es arbitrary: s)
  case Nil
  then show ?case by (simp add: run_def)
next
  case (Cons e es)
  have "timer_pos (run es (dispatch e s))"
    using Cons.prems by (intro Cons.IH timer_ok_dispatch timer_pos_dispatch) simp_all
  then show ?case by (simp add: run_def)
qed

subsection \<open>The concrete session, computed\<close>

lemma focusTime_report_task: "focusTime report_task = 45"
  by (simp add: report_task_def)

lemma report_selected_eq:
  "report_selected = timer_init\<lparr>currentTask := Some report_task, remaining := 2700\<rparr>"
  by (simp add: report_selected_def run_def dispatch_props_idle timer_init_def
      focusTime_report_task)

lemma report_running_eq:
  "report_running =
     \<lparr>currentTask = Some report_task, remaining = 2700, status = Running,
      intervalId = Some (Suc 0),
      live = [\<lparr>handle = Suc 0, newStatus = Running, capturedTask = Some report_task\<rparr>],
      lastHandle = Suc 0, completed = []\<rparr>"
proof -
  have "report_running = dispatch ClickStartFocus report_selected"
    by (simp add: report_running_def report_selected_def run_def)
  also have "\<dots> = dispatch ClickStartFocus
      (timer_init\<lparr>currentTask := Some report_task, remaining := 2700\<rparr>)"
    by (simp only: report_selected_eq)
  also have "\<dots> =
     \<lparr>currentTask = Some report_task, remaining = 2700, status = Running,
      intervalId = Some (Suc 0),
      live = [\<lparr>handle = Suc 0, newStatus = Running, capturedTask = Some report_task\<rparr>],
      lastHandle = Suc 0, completed = []\<rparr>"
    by (subst dispatch_start [where t = report_task])
       (simp_all add: timer_init_def focusTime_report_task)
  finally show ?thesis .
qed

lemma report_break_eq:
  "report_break =
     \<lparr>currentTask = Some report_task, remaining = 300, status = Break, intervalId = None,
      live = [], lastHandle = Suc 0, completed = [Some report_task]\<rparr>"
proof -
  have "report_break = elapse (nat (remaining report_running)) report_running"
    unfolding report_break_def run_then_seconds report_running_def [symmetric]
    by (simp add: report_running_eq)
  also have "\<dots> = report_running\<lparr>remaining := BREAK_TIME, status := Break, intervalId := None,
       live := [], completed := completed report_running @ [Some report_task]\<rparr>"
    by (subst elapse_complete [where h = "Suc 0"
          and iv = "\<lparr>handle = Suc 0, newStatus = Running, capturedTask = Some report_task\<rparr>"])
       (simp_all add: report_running_eq)
  finally show ?thesis
    by (simp add: report_running_eq BREAK_TIME_def)
qed

subsection \<open>Starting a focus session\<close>

text \<open>
  C5. In every reachable idle state \<^verbatim>\<open>startTimer('running', minutes)\<close> sets the status
  to running and the remaining time to \<open>minutes * 60\<close>. With a task selected, the
  ``Start Focus'' button calls it with the task's focus minutes: the status becomes
  running, the remaining time is the task's focus minutes times 60, and after \<open>k\<close>
  further seconds, for every \<open>k\<close> below that number, the timer is still running and
  shows exactly \<open>k\<close> seconds less: each tick of the countdown takes one second off.
\<close>

theorem start_focus_counts_down:
  assumes "status (run es timer_init) = Idle"
    and "currentTask (run es timer_init) = Some t"
  shows "status (startTimer Running minutes (run es timer_init)) = Running \<and>
         remaining (startTimer Running minutes (run es timer_init)) = minutes * 60 \<and>
         status (dispatch ClickStartFocus (run es timer_init)) = Running \<and>
         remaining (dispatch ClickStartFocus (run es timer_init)) = focusTime t * 60 \<and>
         (\<forall>k. int k < focusTime t * 60 \<longrightarrow>
            status (elapse k (dispatch ClickStartFocus (run es timer_init))) = Running \<and>
            remaining (elapse k (dispatch ClickStartFocus (run es timer_init))) =
              focusTime t * 60 - int k)"
proof -
  let ?s = "run es timer_init"
  have ok: "timer_ok ?s" by (rule timer_ok_reachable)
  with assms(1) have idle: "intervalId ?s = None" "live ?s = []"
    by (simp_all add: timer_ok_def)
  note st = dispatch_start [OF assms(1) idle(1) assms(2)]
  have l: "live (dispatch ClickStartFocus ?s) =
      [\<lparr>handle = Suc (lastHandle ?s), newStatus = Running, capturedTask = Some t\<rparr>]"
    by (simp add: st idle)
  have r: "remaining (dispatch ClickStartFocus ?s) = focusTime t * 60"
    and u: "status (dispatch ClickStartFocus ?s) = Running"
    by (simp_all add: st)
  have f: "status (startTimer Running minutes ?s) = Running"
      "remaining (startTimer Running minutes ?s) = minutes * 60"
    using idle by (simp_all add: startTimer_def Let_def)
  have "status (elapse k (dispatch ClickStartFocus ?s)) = Running \<and>
        remaining (elapse k (dispatch ClickStartFocus ?s)) = focusTime t * 60 - int k"
    if "int k < focusTime t * 60" for k
    using that by (simp add: elapse_count [OF l] r u)
  with r u f show ?thesis by blast
qed

theorem start_focus_counts_down_witness:
  "status report_selected = Idle \<and>
   currentTask report_selected = Some report_task \<and>
   status (dispatch ClickStartFocus report_selected) = Running \<and>
   remaining (dispatch ClickStartFocus report_selected) = 2700 \<and>
   remaining (elapse 60 (dispatch ClickStartFocus report_selected)) = 2640 \<and>
   remaining (elapse 2699 (dispatch ClickStartFocus report_selected)) = 1"
proof -
  have a: "status (run [Props (Some report_task)] timer_init) = Idle"
    and b: "currentTask (run [Props (Some report_task)] timer_init) = Some report_task"
    using report_selected_eq by (simp_all add: report_selected_def timer_init_def)
  from start_focus_counts_down [OF a b] a b show ?thesis
    by (simp add: report_selected_def focusTime_report_task)
qed

subsection \<open>The end of the focus countdown\<close>

text \<open>
  C1. From every reachable idle state with a task \<open>t\<close> of positive focus time selected,
  ``Start Focus'' followed by \<open>focusTime t * 60\<close> seconds ends in the status break with
  300 seconds remaining; \<^verbatim>\<open>onTimerComplete\<close> has been called exactly once more than
  before, with \<open>t\<close>, and not at all during the countdown. The tick that makes the
  transition clears its own interval and no other is started: no interval is live in
  the break, and any number of further seconds leaves the state as it is. The break
  shows 05:00 until ``Stop'' is pressed; its countdown never runs.
\<close>

theorem focus_ends_in_frozen_break:
  assumes "status (run es timer_init) = Idle"
    and "currentTask (run es timer_init) = Some t"
    and "0 < focusTime t"
  shows "status (elapse (nat (focusTime t * 60)) (dispatch ClickStartFocus (run es timer_init))) = Break \<and>
         remaining (elapse (nat (focusTime t * 60)) (dispatch ClickStartFocus (run es timer_init))) = 300 \<and>
         completed (elapse (nat (focusTime t * 60)) (dispatch ClickStartFocus (run es timer_init))) =
           completed (run es timer_init) @ [Some t] \<and>
         live (elapse (nat (focusTime t * 60)) (dispatch ClickStartFocus (run es timer_init))) = [] \<and>
         (\<forall>k. int k < focusTime t * 60 \<longrightarrow>
            completed (elapse k (dispatch ClickStartFocus (run es timer_init))) =
              completed (run es timer_init)) \<and>
         (\<forall>n. elapse (nat (focusTime t * 60) + n) (dispatch ClickStartFocus (run es timer_init)) =
              elapse (nat (focusTime t * 60)) (dispatch ClickStartFocus (run es timer_init)))"
proof -
  let ?s = "run es timer_init"
  let ?d = "dispatch ClickStartFocus ?s"
  let ?iv = "\<lparr>handle = Suc (lastHandle ?s), newStatus = Running, capturedTask = Some t\<rparr>"
  have ok: "timer_ok ?s" by (rule timer_ok_reachable)
  with assms(1) have idle: "intervalId ?s = None" "live ?s = []"
    by (simp_all add: timer_ok_def)
  note st = dispatch_start [OF assms(1) idle(1) assms(2)]
  have f: "live ?d = [?iv]" "intervalId ?d = Some (Suc (lastHandle ?s))" "status ?d = Running"
      "currentTask ?d \<noteq> None" "remaining ?d = focusTime t * 60" "completed ?d = completed ?s"
    using assms(2) by (simp_all add: st idle)
  have "elapse (nat (remaining ?d)) ?d =
      ?d\<lparr>remaining := BREAK_TIME, status := Break, intervalId := None, live := [],
         completed := completed ?d @ [capturedTask ?iv]\<rparr>"
    using f assms(3) by (intro elapse_complete) simp_all
  then have e: "elapse (nat (focusTime t * 60)) ?d =
      ?d\<lparr>remaining := BREAK_TIME, status := Break, intervalId := None, live := [],
         completed := completed ?s @ [Some t]\<rparr>"
    by (simp add: f)
  have "elapse (nat (focusTime t * 60) + n) ?d = elapse (nat (focusTime t * 60)) ?d" for n
    unfolding elapse_add by (rule elapse_nolive) (simp add: e)
  moreover have "completed (elapse k ?d) = completed ?s" if "int k < focusTime t * 60" for k
    using that by (simp add: elapse_count [OF f(1)] f)
  ultimately show ?thesis
    by (simp add: e BREAK_TIME_def)
qed

theorem focus_ends_in_frozen_break_witness:
  "status report_selected = Idle \<and> currentTask report_selected = Some report_task \<and>
   status (elapse 2700 (dispatch ClickStartFocus report_selected)) = Break \<and>
   remaining (elapse 2700 (dispatch ClickStartFocus report_selected)) = 300 \<and>
   completed (elapse 2700 (dispatch ClickStartFocus report_selected)) = [Some report_task] \<and>
   remaining (elapse 3000 (dispatch ClickStartFocus report_selected)) = 300 \<and>
   status (elapse 3000 (dispatch ClickStartFocus report_selected)) = Break"
proof -
  have a: "status (run [Props (Some report_task)] timer_init) = Idle"
    and b: "currentTask (run [Props (Some report_task)] timer_init) = Some report_task"
    and c: "completed (run [Props (Some report_task)] timer_init) = []"
    using report_selected_eq by (simp_all add: report_selected_def timer_init_def)
  have p: "0 < focusTime report_task" by (simp add: focusTime_report_task)
  note th = focus_ends_in_frozen_break [OF a b p, unfolded focusTime_report_task]
  from th have "elapse (nat (45 * 60) + 300) (dispatch ClickStartFocus report_selected) =
      elapse (nat (45 * 60)) (dispatch ClickStartFocus report_selected)"
    unfolding report_selected_def by blast
  then have "elapse 3000 (dispatch ClickStartFocus report_selected) =
      elapse 2700 (dispatch ClickStartFocus report_selected)"
    by simp
  with th a b c show ?thesis
    by (simp add: report_selected_def)
qed

subsection \<open>The ``Take a Break'' button\<close>

text \<open>
  C2. The button is shown while the status is running and calls
  \<^verbatim>\<open>startTimer('break', BREAK_TIME / 60)\<close>. In every reachable running state the
  countdown's interval handle is set, so \<^verbatim>\<open>startTimer\<close> returns at its first line: the
  click changes nothing. The status stays running and the focus countdown goes on.
\<close>

theorem take_a_break_does_nothing:
  assumes "status (run es timer_init) = Running"
  shows "dispatch ClickTakeBreak (run es timer_init) = run es timer_init \<and>
         handler ClickTakeBreak (run es timer_init) = run es timer_init \<and>
         startTimer Break (BREAK_TIME div 60) (run es timer_init) = run es timer_init"
proof -
  have "timer_ok (run es timer_init)" by (rule timer_ok_reachable)
  with assms have i: "intervalId (run es timer_init) \<noteq> None"
    by (auto simp: timer_ok_def)
  then show ?thesis
    using assms by (simp add: dispatch_break_noop startTimer_def)
qed

theorem take_a_break_does_nothing_witness:
  "status report_running = Running \<and> remaining report_running = 2700 \<and>
   dispatch ClickTakeBreak report_running = report_running"
proof -
  have a: "status (run [Props (Some report_task), ClickStartFocus] timer_init) = Running"
    using report_running_eq by (simp add: report_running_def)
  from take_a_break_does_nothing [OF a] show ?thesis
    using report_running_eq by (simp add: report_running_def)
qed

subsection \<open>How many ticks are live\<close>

text \<open>
  C3. In every reachable state exactly one interval is live when the status is
  running and none is live otherwise: none when idle, and none in a break either. In
  a running state the handle is set and \<^verbatim>\<open>startTimer\<close>, with any arguments, returns the
  state unchanged.
\<close>

theorem live_ticks_by_status:
  "length (live (run es timer_init)) = (if status (run es timer_init) = Running then 1 else 0) \<and>
   (status (run es timer_init) = Running \<longrightarrow>
      intervalId (run es timer_init) \<noteq> None \<and>
      startTimer newSt minutes (run es timer_init) = run es timer_init)"
proof -
  have "timer_ok (run es timer_init)" by (rule timer_ok_reachable)
  then show ?thesis
    by (auto simp: timer_ok_def startTimer_def)
qed

theorem live_ticks_by_status_witness:
  "status report_break = Break \<and> length (live report_break) = 0 \<and>
   status report_running = Running \<and> length (live report_running) = 1 \<and>
   startTimer Break 5 report_running = report_running"
proof -
  have a: "status report_running = Running" by (simp add: report_running_eq)
  have b: "status report_break = Break" by (simp add: report_break_eq)
  from live_ticks_by_status [of "[Props (Some report_task), ClickStartFocus]" Break 5,
      folded report_running_def]
    live_ticks_by_status [of "[Props (Some report_task), ClickStartFocus] @ replicate 2700 Second"
      Break 5, folded report_break_def]
    a b
  show ?thesis
    by simp
qed

subsection \<open>Stop\<close>

text \<open>
  C4, as the code has it. In every reachable state whose status is running or break,
  \<^verbatim>\<open>stopTimer\<close> sets the status to idle, the remaining time to 1500 and clears the
  interval. The status changed, so the task effect runs in the same commit, and since
  a task is still selected it sets the remaining time to that task's focus minutes
  times 60. The state after the click is idle with no live interval and that
  remaining time, and no number of elapsed seconds changes it.
\<close>

theorem stop_returns_to_the_task_time:
  assumes "status (run es timer_init) = Running \<or> status (run es timer_init) = Break"
  shows "status (stopTimer (run es timer_init)) = Idle \<and>
         remaining (stopTimer (run es timer_init)) = 1500 \<and>
         intervalId (stopTimer (run es timer_init)) = None \<and>
         live (stopTimer (run es timer_init)) = [] \<and>
         status (dispatch ClickStop (run es timer_init)) = Idle \<and>
         intervalId (dispatch ClickStop (run es timer_init)) = None \<and>
         live (dispatch ClickStop (run es timer_init)) = [] \<and>
         (\<exists>t. currentTask (run es timer_init) = Some t \<and>
              remaining (dispatch ClickStop (run es timer_init)) = focusTime t * 60) \<and>
         (\<forall>n. elapse n (dispatch ClickStop (run es timer_init)) =
              dispatch ClickStop (run es timer_init))"
proof -
  let ?s = "run es timer_init"
  have ok: "timer_ok ?s" by (rule timer_ok_reachable)
  from assms have ni: "status ?s \<noteq> Idle" by auto
  with ok obtain t where t: "currentTask ?s = Some t" by (auto simp: timer_ok_def)
  note d = dispatch_stop [OF ok ni t]
  have "elapse n (dispatch ClickStop ?s) = dispatch ClickStop ?s" for n
    by (rule elapse_nolive) (simp add: d)
  then show ?thesis
    using t by (simp add: d stopTimer_ok [OF ok] POMODORO_TIME_def)
qed

theorem stop_returns_to_the_task_time_witness:
  "status report_running = Running \<and>
   remaining (stopTimer report_running) = 1500 \<and>
   status (dispatch ClickStop report_running) = Idle \<and>
   live (dispatch ClickStop report_running) = [] \<and>
   elapse 60 (dispatch ClickStop report_running) = dispatch ClickStop report_running"
proof -
  have a: "status (run [Props (Some report_task), ClickStartFocus] timer_init) = Running \<or>
           status (run [Props (Some report_task), ClickStartFocus] timer_init) = Break"
    using report_running_eq by (simp add: report_running_def)
  from stop_returns_to_the_task_time [OF a, folded report_running_def]
  show ?thesis
    by (simp add: report_running_eq)
qed

text \<open>
  C4 as stated fails for the running session of the 45-minute task: after ``Stop'' the
  remaining time is 2700, not 1500.
\<close>

theorem stop_shows_1500_counterexample:
  "status report_running = Running \<and>
   remaining (dispatch ClickStop report_running) = 2700 \<and>
   remaining (dispatch ClickStop report_running) \<noteq> 1500"
proof -
  have ok: "timer_ok report_running"
    unfolding report_running_def by (rule timer_ok_reachable)
  have "dispatch ClickStop report_running =
     report_running\<lparr>remaining := focusTime report_task * 60, status := Idle,
       intervalId := None, live := []\<rparr>"
    by (rule dispatch_stop [OF ok]) (simp_all add: report_running_eq)
  then show ?thesis
    by (simp add: report_running_eq focusTime_report_task)
qed

subsection \<open>The remaining time is never zero\<close>

text \<open>
  C10. Whatever valid events happened, the stored remaining time and the displayed
  time are at least 1. The tick taken at 1 does not store 0: in a reachable running
  state it moves to the break with 300, and for any interval and any state the
  updater replaces 1 by 300 (an interval started as running) or by 1500 (one started
  as break).
\<close>

theorem remaining_is_never_zero:
  assumes "list_all valid_event es"
  shows "1 \<le> remaining (run es timer_init) \<and>
         1 \<le> timeToDisplay (run es timer_init) \<and>
         (status (run es timer_init) = Running \<and> remaining (run es timer_init) = 1 \<longrightarrow>
            status (dispatch Second (run es timer_init)) = Break \<and>
            remaining (dispatch Second (run es timer_init)) = 300) \<and>
         (\<forall>iv s. remaining s = 1 \<longrightarrow>
            remaining (tick iv s) = (if newStatus iv = Running then 300 else 1500))"
proof -
  let ?s = "run es timer_init"
  have ok: "timer_ok ?s" by (rule timer_ok_reachable)
  have pos: "timer_pos ?s"
    using assms by (intro timer_pos_run timer_ok_init timer_pos_init)
  have r: "1 \<le> remaining ?s" using pos by (simp add: timer_pos_def)
  have d: "1 \<le> timeToDisplay ?s"
    using pos by (auto simp: timer_pos_def timeToDisplay_def split: option.split)
  have fin: "status (dispatch Second ?s) = Break \<and> remaining (dispatch Second ?s) = 300"
    if run: "status ?s = Running" and one: "remaining ?s = 1"
  proof -
    from ok run obtain h c where hc: "intervalId ?s = Some h"
        "live ?s = [\<lparr>handle = h, newStatus = Running, capturedTask = Some c\<rparr>]"
      and ct: "currentTask ?s \<noteq> None"
      by (auto simp: timer_ok_def)
    from one have "remaining ?s \<le> 1" by simp
    from dispatch_Second_done [OF hc(2) _ _ hc(1) run ct this]
    show ?thesis by (simp add: BREAK_TIME_def)
  qed
  have t: "remaining (tick iv s) = (if newStatus iv = Running then 300 else 1500)"
    if "remaining s = 1" for iv s
    using that by (simp add: tick_def clearInterval_def BREAK_TIME_def POMODORO_TIME_def)
  from r d fin t show ?thesis by blast
qed

theorem remaining_is_never_zero_witness:
  "list_all valid_event ([Props (Some report_task), ClickStartFocus] @ replicate 2699 Second) \<and>
   remaining (elapse 2699 report_running) = 1 \<and>
   status (elapse 2699 report_running) = Running \<and>
   remaining (dispatch Second (elapse 2699 report_running)) = 300 \<and>
   status (dispatch Second (elapse 2699 report_running)) = Break"
proof -
  have v: "list_all valid_event ([Props (Some report_task), ClickStartFocus] @ replicate 2699 Second)"
    by (simp add: list_all_iff focusTime_report_task)
  have e: "elapse 2699 report_running = report_running\<lparr>remaining := remaining report_running - int 2699\<rparr>"
    by (rule elapse_count [where iv = "\<lparr>handle = Suc 0, newStatus = Running, capturedTask = Some report_task\<rparr>"])
       (simp_all add: report_running_eq)
  have r: "run ([Props (Some report_task), ClickStartFocus] @ replicate 2699 Second) timer_init =
      elapse 2699 report_running"
    unfolding run_then_seconds report_running_def ..
  have e1: "remaining (elapse 2699 report_running) = 1"
    and e2: "status (elapse 2699 report_running) = Running"
    unfolding e by (simp_all add: report_running_eq)
  from remaining_is_never_zero [OF v, unfolded r] v e1 e2 show ?thesis
    by simp
qed

section \<open>Properties of the task board\<close>

subsection \<open>Trimming\<close>

lemma trim_blank: "list_all isWhiteSpace s \<Longrightarrow> trim s = []"
proof -
  assume "list_all isWhiteSpace s"
  then have "dropWhile isWhiteSpace s = []"
    by (simp add: list_all_iff dropWhile_eq_Nil_conv)
  then have "trim s = rev (dropWhile isWhiteSpace (rev []))"
    by (simp only: trim_def)
  then show ?thesis by simp
qed

lemma trim_empty_iff: "trim s = [] \<longleftrightarrow> list_all isWhiteSpace s"
proof
  assume "trim s = []"
  then have "dropWhile isWhiteSpace (rev (dropWhile isWhiteSpace s)) = []"
    by (simp add: trim_def)
  then have a: "\<forall>x \<in> set (dropWhile isWhiteSpace s). isWhiteSpace x"
    by (simp add: dropWhile_eq_Nil_conv)
  have "dropWhile isWhiteSpace s = []"
  proof (cases "dropWhile isWhiteSpace s")
    case Nil
    then show ?thesis .
  next
    case (Cons x xs)
    then have "\<not> isWhiteSpace x" using hd_dropWhile [of isWhiteSpace s] by auto
    moreover have "isWhiteSpace x" using a Cons by simp
    ultimately show ?thesis by simp
  qed
  then show "list_all isWhiteSpace s"
    by (simp add: dropWhile_eq_Nil_conv list_all_iff)
qed (rule trim_blank)

subsection \<open>Clicks on a card\<close>

lemma taskCard_Some: "taskCard a i = Some t \<Longrightarrow> t \<in> set (tasks a) \<and> task_id t = i"
  by (auto simp: taskCard_def find_Some_iff)

lemma currentFocusTask_handleUpdateTaskStatus:
  "currentFocusTask (handleUpdateTaskStatus f i st a) = currentFocusTask a"
  by (simp add: handleUpdateTaskStatus_def)

lemma currentFocusTask_handleStartFocus:
  "currentFocusTask (handleStartFocus t a) = Some t"
  by (simp add: handleStartFocus_def Let_def currentFocusTask_handleUpdateTaskStatus)

subsection \<open>The example boards, computed\<close>

lemma report_focused_board_eq:
  "report_focused_board = two_task_board\<lparr>currentFocusTask := Some report_task\<rparr>"
  by (simp add: report_focused_board_def app_run_def taskCard_def handleStartFocus_def
      two_task_board_def app_init_def report_task_def email_task_def)

subsection \<open>A blank title\<close>

text \<open>
  C8. When every code unit of the title is white space (the empty title included),
  \<^verbatim>\<open>handleSubmit\<close> returns before it calls \<^verbatim>\<open>onAddTask\<close>: the form and the board are
  unchanged, so no request went to the store and the task list is the same.
\<close>

theorem blank_title_is_refused:
  assumes "list_all isWhiteSpace (form_title f)"
  shows "handleSubmit f a = (f, a) \<and>
         storeCalls (snd (handleSubmit f a)) = storeCalls a \<and>
         tasks (snd (handleSubmit f a)) = tasks a \<and>
         app_dispatch (SubmitForm f) a = a"
  using assms by (simp add: handleSubmit_def trim_blank)

theorem blank_title_is_refused_witness:
  "list_all isWhiteSpace (form_title blank_form) \<and>
   handleSubmit blank_form two_task_board = (blank_form, two_task_board) \<and>
   storeCalls (snd (handleSubmit blank_form two_task_board)) = [] \<and>
   tasks (snd (handleSubmit blank_form two_task_board)) = [report_task, email_task]"
proof -
  have b: "list_all isWhiteSpace (form_title blank_form)"
    by (simp add: blank_form_def isWhiteSpace_def)
  from blank_title_is_refused [OF b, of two_task_board] b show ?thesis
    by (simp add: two_task_board_def app_init_def)
qed

subsection \<open>Starting focus on a task\<close>

text \<open>
  C6. Start focus is the Focus button of a task's card. For the card of a task that
  is not complete, the click makes that task the focused task. If the task is todo,
  the click also calls \<^verbatim>\<open>handleUpdateTaskStatus\<close> with in-progress, which (the store
  being ready) sends that update and leaves it pending; if the task is in progress,
  nothing but the focus changes. For the card of a completed task there is no Focus
  button: the board stays as it is, and the task is not made the focused task.
\<close>

theorem start_focus_at_the_card:
  assumes "taskCard a i = Some t"
  shows "(task_status t \<noteq> Complete \<longrightarrow>
            currentFocusTask (app_dispatch (ClickFocus i) a) = Some t) \<and>
         (task_status t = Todo \<longrightarrow>
            app_dispatch (ClickFocus i) a =
              handleUpdateTaskStatus (currentFocusTask a) (task_id t) InProgress
                (a\<lparr>currentFocusTask := Some t\<rparr>)) \<and>
         (task_status t = Todo \<and> storeReady a \<longrightarrow>
            storeCalls (app_dispatch (ClickFocus i) a) =
              storeCalls a @ [UpdateDoc (task_id t) InProgress] \<and>
            pending (app_dispatch (ClickFocus i) a) =
              pending a @ [AwaitUpdate (currentFocusTask a) (task_id t) InProgress]) \<and>
         (task_status t = InProgress \<longrightarrow>
            app_dispatch (ClickFocus i) a = a\<lparr>currentFocusTask := Some t\<rparr>) \<and>
         (task_status t = Complete \<longrightarrow> app_dispatch (ClickFocus i) a = a)"
proof -
  have offered: "app_dispatch (ClickFocus i) a = handleStartFocus t a"
    if "task_status t \<noteq> Complete"
    using that assms by simp
  have focus: "currentFocusTask (app_dispatch (ClickFocus i) a) = Some t"
    if "task_status t \<noteq> Complete"
    unfolding offered [OF that] by (rule currentFocusTask_handleStartFocus)
  have todo: "app_dispatch (ClickFocus i) a =
      handleUpdateTaskStatus (currentFocusTask a) (task_id t) InProgress
        (a\<lparr>currentFocusTask := Some t\<rparr>)"
    if "task_status t = Todo"
    using that assms by (simp add: handleStartFocus_def Let_def)
  have sent: "storeCalls (app_dispatch (ClickFocus i) a) =
        storeCalls a @ [UpdateDoc (task_id t) InProgress] \<and>
      pending (app_dispatch (ClickFocus i) a) =
        pending a @ [AwaitUpdate (currentFocusTask a) (task_id t) InProgress]"
    if "task_status t = Todo \<and> storeReady a"
    using that assms by (simp add: handleStartFocus_def handleUpdateTaskStatus_def Let_def)
  have begun: "app_dispatch (ClickFocus i) a = a\<lparr>currentFocusTask := Some t\<rparr>"
    if "task_status t = InProgress"
    using that assms by (simp add: handleStartFocus_def Let_def)
  have hidden: "app_dispatch (ClickFocus i) a = a"
    if "task_status t = Complete"
    using that assms by simp
  from focus todo sent begun hidden show ?thesis by blast
qed

theorem start_focus_at_the_card_witness:
  "taskCard two_task_board 4 = Some email_task \<and> task_status email_task = Todo \<and>
   currentFocusTask (app_dispatch (ClickFocus 4) two_task_board) = Some email_task \<and>
   storeCalls (app_dispatch (ClickFocus 4) two_task_board) = [UpdateDoc 4 InProgress] \<and>
   pending (app_dispatch (ClickFocus 4) two_task_board) = [AwaitUpdate None 4 InProgress] \<and>
   taskCard two_task_board 3 = Some report_task \<and> task_status report_task = InProgress \<and>
   currentFocusTask (app_dispatch (ClickFocus 3) two_task_board) = Some report_task \<and>
   taskCard done_board 3 = Some done_task \<and> task_status done_task = Complete \<and>
   app_dispatch (ClickFocus 3) done_board = done_board \<and>
   currentFocusTask (app_dispatch (ClickFocus 3) done_board) = None"
proof -
  have c: "taskCard two_task_board 4 = Some email_task"
      "taskCard two_task_board 3 = Some report_task"
    by (simp_all add: taskCard_def two_task_board_def app_init_def report_task_def
        email_task_def)
  have e: "task_status email_task = Todo" "task_status email_task \<noteq> Complete"
      "task_id email_task = 4"
    by (simp_all add: email_task_def)
  have p: "task_status report_task = InProgress" "task_status report_task \<noteq> Complete"
    by (simp_all add: report_task_def)
  have d: "taskCard done_board 3 = Some done_task" "task_status done_task = Complete"
    by (simp_all add: taskCard_def done_board_def app_init_def done_task_def report_task_def)
  have r: "storeReady two_task_board" "storeCalls two_task_board = []"
      "pending two_task_board = []" "currentFocusTask two_task_board = None"
      "currentFocusTask done_board = None"
    by (simp_all add: two_task_board_def done_board_def app_init_def)
  note th4 = start_focus_at_the_card [OF c(1)]
  note th3 = start_focus_at_the_card [OF c(2)]
  note thd = start_focus_at_the_card [OF d(1)]
  from th4 e have f4: "currentFocusTask (app_dispatch (ClickFocus 4) two_task_board) =
      Some email_task"
    by blast
  from th4 e r have s4: "storeCalls (app_dispatch (ClickFocus 4) two_task_board) =
        storeCalls two_task_board @ [UpdateDoc (task_id email_task) InProgress]"
    and p4: "pending (app_dispatch (ClickFocus 4) two_task_board) =
        pending two_task_board @
        [AwaitUpdate (currentFocusTask two_task_board) (task_id email_task) InProgress]"
    by blast+
  from th3 p have f3: "currentFocusTask (app_dispatch (ClickFocus 3) two_task_board) =
      Some report_task"
    by blast
  from thd d have n: "app_dispatch (ClickFocus 3) done_board = done_board"
    by blast
  have s4': "storeCalls (app_dispatch (ClickFocus 4) two_task_board) = [UpdateDoc 4 InProgress]"
    and p4': "pending (app_dispatch (ClickFocus 4) two_task_board) =
        [AwaitUpdate None 4 InProgress]"
    unfolding s4 p4 by (simp_all add: r e)
  have n': "currentFocusTask (app_dispatch (ClickFocus 3) done_board) = None"
    unfolding n by (rule r)
  from c e(1) p(1) d f4 f3 n n' s4' p4' show ?thesis by blast
qed

subsection \<open>A completed task that stays focused\<close>

text \<open>
  C7. A task is to be focused only while it is not complete, and the update that
  marks the focused task complete is to clear the focus. On the board with the
  report in progress, focusing the report and then marking it complete does so: when
  the update resolves, \<open>currentFocusTask\<close> is cleared; and so does focusing the
  report and then deleting it. With the two clicks of the first run the other
  way round (``Mark Complete'' first, ``Focus'' while the update is pending) the
  rest of \<^verbatim>\<open>handleUpdateTaskStatus\<close> tests the \<^verbatim>\<open>currentFocusTask\<close> of the render in which
  ``Mark Complete'' was clicked, which was \<^verbatim>\<open>null\<close>: nothing is cleared. When the
  snapshot arrives the report is listed as complete and it is the focused task, with
  no request left pending.
\<close>

theorem completed_task_stays_focused:
  "currentFocusTask (app_run focus_then_complete report_board) = None \<and>
   tasks (app_run focus_then_complete report_board) = [done_task] \<and>
   currentFocusTask (app_run focus_then_delete report_board) = None \<and>
   tasks (app_run focus_then_delete report_board) = [] \<and>
   currentFocusTask (app_run complete_then_focus report_board) = Some report_task \<and>
   tasks (app_run complete_then_focus report_board) = [done_task] \<and>
   pending (app_run complete_then_focus report_board) = [] \<and>
   isFocusing (app_run complete_then_focus report_board) done_task \<and>
   task_status done_task = Complete"
proof -
  have c: "taskCard report_board 3 = Some report_task"
    and st: "task_status report_task = InProgress"
    and r: "storeReady report_board" "pending report_board = []"
      "currentFocusTask report_board = None"
    by (simp_all add: taskCard_def report_board_def app_init_def report_task_def)
  have c': "taskCard (a\<lparr>currentFocusTask := x\<rparr>) 3 = taskCard a 3"
      "taskCard (a\<lparr>storeCalls := y, pending := z\<rparr>) 3 = taskCard a 3" for a x y z
    by (simp_all add: taskCard_def)
  have first: "app_run focus_then_complete report_board =
      report_board\<lparr>tasks := [done_task], currentFocusTask := None,
        storeCalls := [UpdateDoc 3 Complete], pending := []\<rparr>"
    by (simp add: focus_then_complete_def app_run_def c c' st r handleStartFocus_def
        handleUpdateTaskStatus_def Let_def)
       (simp add: report_board_def app_init_def report_task_def)
  have third: "app_run focus_then_delete report_board =
      report_board\<lparr>tasks := [], currentFocusTask := None,
        storeCalls := [DeleteDoc 3], pending := []\<rparr>"
    by (simp add: focus_then_delete_def app_run_def c c' st r handleStartFocus_def
        handleDeleteTask_def Let_def)
       (simp add: report_board_def app_init_def report_task_def)
  have second: "app_run complete_then_focus report_board =
      report_board\<lparr>tasks := [done_task], currentFocusTask := Some report_task,
        storeCalls := [UpdateDoc 3 Complete], pending := []\<rparr>"
    by (simp add: complete_then_focus_def app_run_def c c' st r handleStartFocus_def
        handleUpdateTaskStatus_def Let_def)
       (simp add: report_board_def app_init_def)
  show ?thesis
    unfolding first second third
    by (simp add: isFocusing_def done_task_def)
qed

subsection \<open>Switching the focused task while the countdown runs\<close>

text \<open>
  C9. Start Focus on task \<open>ta\<close> and let \<open>k\<close> seconds of its countdown pass. A click on
  the Focus button of another card then makes \<open>tb\<close> the focused task of the board, and
  the timer receives it as its prop: the timer's state changes in that prop only. It
  is still running, the remaining time is still that of \<open>ta\<close>'s countdown, the live
  interval is the one that captured \<open>ta\<close>. When the remaining seconds have passed,
  the status is break and the one new call of \<^verbatim>\<open>onTimerComplete\<close> has the argument
  \<open>ta\<close>.
\<close>

theorem switching_focus_keeps_the_countdown:
  fixes ta tb :: task and es :: "timer_event list" and k i :: nat and a :: app
  assumes "status (run es timer_init) = Idle"
    and "currentTask (run es timer_init) = Some ta"
    and "int k < focusTime ta * 60"
    and "taskCard a i = Some tb"
    and "task_status tb \<noteq> Complete"
  defines "s1 \<equiv> elapse k (dispatch ClickStartFocus (run es timer_init))"
  defines "s2 \<equiv> snd (board_then_timer (ClickFocus i) (a, s1))"
  shows "status s1 = Running \<and>
         remaining s1 = focusTime ta * 60 - int k \<and>
         currentFocusTask (fst (board_then_timer (ClickFocus i) (a, s1))) = Some tb \<and>
         s2 = s1\<lparr>currentTask := Some tb\<rparr> \<and>
         map capturedTask (live s2) = [Some ta] \<and>
         status (elapse (nat (remaining s1)) s2) = Break \<and>
         completed (elapse (nat (remaining s1)) s2) = completed (run es timer_init) @ [Some ta]"
proof -
  let ?s = "run es timer_init"
  let ?d = "dispatch ClickStartFocus ?s"
  let ?iv = "\<lparr>handle = Suc (lastHandle ?s), newStatus = Running, capturedTask = Some ta\<rparr>"
  have ok: "timer_ok ?s" by (rule timer_ok_reachable)
  with assms(1) have idle: "intervalId ?s = None" "live ?s = []"
    by (simp_all add: timer_ok_def)
  note st = dispatch_start [OF assms(1) idle(1) assms(2)]
  have l: "live ?d = [?iv]" by (simp add: st idle)
  have "elapse k ?d = ?d\<lparr>remaining := remaining ?d - int k\<rparr>"
    using assms(3) by (intro elapse_count [OF l]) (simp add: st)
  then have s1: "s1 = ?d\<lparr>remaining := focusTime ta * 60 - int k\<rparr>"
    unfolding s1_def by (simp add: st)
  have f1: "status s1 = Running" "remaining s1 = focusTime ta * 60 - int k"
      "live s1 = [?iv]" "intervalId s1 = Some (Suc (lastHandle ?s))"
      "completed s1 = completed ?s"
    by (simp_all add: s1 st idle)
  have ad: "app_dispatch (ClickFocus i) a = handleStartFocus tb a"
    using assms(4,5) by simp
  have s2: "s2 = s1\<lparr>currentTask := Some tb\<rparr>"
    unfolding s2_def board_then_timer_def
    by (simp add: Let_def ad currentFocusTask_handleStartFocus dispatch_props_busy f1
        del: app_dispatch.simps)
  have "elapse (nat (remaining s2)) s2 =
      s2\<lparr>remaining := BREAK_TIME, status := Break, intervalId := None, live := [],
         completed := completed s2 @ [capturedTask ?iv]\<rparr>"
    using assms(3) by (intro elapse_complete) (simp_all add: s2 f1)
  then have e: "elapse (nat (remaining s1)) s2 =
      s2\<lparr>remaining := BREAK_TIME, status := Break, intervalId := None, live := [],
         completed := completed ?s @ [Some ta]\<rparr>"
    by (simp add: s2 f1)
  have g: "status (elapse (nat (remaining s1)) s2) = Break"
      "completed (elapse (nat (remaining s1)) s2) = completed ?s @ [Some ta]"
    unfolding e by simp_all
  have m: "map capturedTask (live s2) = [Some ta]"
    unfolding s2 by (simp add: f1)
  have "currentFocusTask (fst (board_then_timer (ClickFocus i) (a, s1))) = Some tb"
    by (simp add: board_then_timer_def Let_def ad currentFocusTask_handleStartFocus
        del: app_dispatch.simps)
  with f1(1,2) s2 m g show ?thesis by blast
qed

theorem switching_focus_keeps_the_countdown_witness:
  "status report_selected = Idle \<and>
   currentTask report_selected = Some report_task \<and>
   taskCard report_focused_board 4 = Some email_task \<and>
   focusTime email_task = 15 \<and>
   currentFocusTask
     (fst (board_then_timer (ClickFocus 4)
        (report_focused_board, elapse 60 (dispatch ClickStartFocus report_selected)))) =
     Some email_task \<and>
   remaining
     (snd (board_then_timer (ClickFocus 4)
        (report_focused_board, elapse 60 (dispatch ClickStartFocus report_selected)))) = 2640 \<and>
   status
     (snd (board_then_timer (ClickFocus 4)
        (report_focused_board, elapse 60 (dispatch ClickStartFocus report_selected)))) = Running \<and>
   completed
     (elapse 2640
       (snd (board_then_timer (ClickFocus 4)
          (report_focused_board, elapse 60 (dispatch ClickStartFocus report_selected))))) =
     [Some report_task]"
proof -
  have a: "status (run [Props (Some report_task)] timer_init) = Idle"
    and b: "currentTask (run [Props (Some report_task)] timer_init) = Some report_task"
    and c: "completed (run [Props (Some report_task)] timer_init) = []"
    using report_selected_eq by (simp_all add: report_selected_def timer_init_def)
  have k: "int 60 < focusTime report_task * 60"
    by (simp add: focusTime_report_task)
  have t: "taskCard report_focused_board 4 = Some email_task"
    by (simp add: report_focused_board_eq taskCard_def two_task_board_def app_init_def
        report_task_def email_task_def)
  have n: "task_status email_task \<noteq> Complete" and m: "focusTime email_task = 15"
    by (simp_all add: email_task_def)
  let ?s1 = "elapse 60 (dispatch ClickStartFocus report_selected)"
  let ?p = "board_then_timer (ClickFocus 4) (report_focused_board, ?s1)"
  note th = switching_focus_keeps_the_countdown [OF a b k t n, folded report_selected_def]
  note th1 = th [THEN conjunct1]
  note th2 = th [THEN conjunct2, THEN conjunct1]
  note th3 = th [THEN conjunct2, THEN conjunct2, THEN conjunct1]
  note th4 = th [THEN conjunct2, THEN conjunct2, THEN conjunct2, THEN conjunct1]
  note th7 = th [THEN conjunct2, THEN conjunct2, THEN conjunct2, THEN conjunct2,
      THEN conjunct2, THEN conjunct2]
  have r: "remaining ?s1 = 2640"
    using th2 by (simp add: focusTime_report_task)
  have f: "remaining (snd ?p) = 2640" "status (snd ?p) = Running"
    unfolding th4 using r th1 by simp_all
  have g: "completed (elapse 2640 (snd ?p)) = [Some report_task]"
    using th7 c unfolding r by (simp add: report_selected_def)
  from a b t m th3 f g show ?thesis
    unfolding report_selected_def by blast
qed

end
